theory Spec2Isabelle
  imports Main "HOL-Library.Word"
begin

unbundle bit_operations_syntax

section \<open>Machine types\<close>

text \<open>
  Go's fixed-width integers are words: \<open>+\<close> and \<open>*\<close> wrap, \<open><<\<close> is \<open>push_bit\<close>,
  \<open>>>\<close> is \<open>drop_bit\<close> on an unsigned operand and \<open>signed_drop_bit\<close> on a signed one,
  a conversion from \<open>byte\<close> (unsigned) to a wider type extends with zeros, and a
  conversion to \<open>byte\<close> keeps the low eight bits. \<open>int16\<close> and \<open>uint16\<close> are the same
  16-bit words: the conversions \<open>uint16(x)\<close> and \<open>int16(x)\<close> between them keep the bit
  pattern and are not written; \<open>sint\<close> reads an \<open>int16\<close> as the signed number it is.
\<close>

type_synonym byte = "8 word"
type_synonym uint16 = "16 word"
type_synonym int16 = "16 word"
type_synonym uintptr = "64 word"

section \<open>The operating system as the code sees it\<close>

text \<open>
  An \<open>error\<close> is a value: \<open>Errno\<close> is \<open>syscall.Errno\<close>, the only error the package
  makes itself (in \<open>ioctl\<close>); \<open>PathError\<close> and \<open>ErrOther\<close> stand for the errors package
  \<open>os\<close> hands back (operation, path and errno; or a message such as EOF).
\<close>

datatype error = Errno uintptr | PathError string string uintptr | ErrOther string

text \<open>\<open>*os.File\<close>: the handle, identified by its descriptor (\<open>f.Fd()\<close>).\<close>

datatype File = File (Fd: uintptr)

text \<open>
  Every call that leaves the package is recorded, oldest first, with its arguments and
  what came back: \<open>os.OpenFile\<close> (name, flag, perm), the \<open>ioctl\<close> system call (fd, cmd,
  arg, returned errno), \<open>File.Write\<close> (buffer, count, error), \<open>File.Read\<close> (length of the
  buffer, bytes stored, error) and \<open>File.Close\<close>.
\<close>

datatype event =
    EvOpenFile string int nat "error + File"
  | EvIoctl uintptr uintptr uintptr uintptr
  | EvWrite File "byte list" int "error option"
  | EvRead File nat "byte list" "error option"
  | EvClose File "error option"

type_synonym history = "event list"

text \<open>
  The system outside the package: what each external call returns, as a function of
  everything that happened before and of the call's arguments. \<open>maxAlloc\<close> is the
  runtime's bound on the size of one allocation.
\<close>

record os =
  os_OpenFile :: "history \<Rightarrow> string \<Rightarrow> int \<Rightarrow> nat \<Rightarrow> error + File"
  sys_ioctl :: "history \<Rightarrow> uintptr \<Rightarrow> uintptr \<Rightarrow> uintptr \<Rightarrow> uintptr"
  File_Write :: "history \<Rightarrow> File \<Rightarrow> byte list \<Rightarrow> int \<times> error option"
  File_Read :: "history \<Rightarrow> File \<Rightarrow> nat \<Rightarrow> byte list \<times> error option"
  File_Close :: "history \<Rightarrow> File \<Rightarrow> error option"
  maxAlloc :: int

definition OpenFile :: "os \<Rightarrow> string \<Rightarrow> int \<Rightarrow> nat \<Rightarrow> history \<Rightarrow> (error + File) \<times> history" where
  "OpenFile sys name flag perm h =
     (let r = os_OpenFile sys h name flag perm
      in (r, h @ [EvOpenFile name flag perm r]))"

text \<open>\<open>f.Write(buf)\<close> returns the count and the error of the system.\<close>

definition Write :: "os \<Rightarrow> File \<Rightarrow> byte list \<Rightarrow> history \<Rightarrow> (int \<times> error option) \<times> history" where
  "Write sys f buf h =
     (let (n, err) = File_Write sys h f buf
      in ((n, err), h @ [EvWrite f buf n err]))"

text \<open>
  \<open>f.Read(buf)\<close> stores at most \<open>len(buf)\<close> bytes at the front of \<open>buf\<close> and leaves the
  rest of it as it was; it returns the buffer (Go changes it in place), the number of
  bytes stored and the error.
\<close>

definition Read :: "os \<Rightarrow> File \<Rightarrow> byte list \<Rightarrow> history \<Rightarrow> (byte list \<times> int \<times> error option) \<times> history" where
  "Read sys f buf h =
     (let (data, err) = File_Read sys h f (length buf);
          got = take (length buf) data
      in ((got @ drop (length got) buf, int (length got), err),
          h @ [EvRead f (length buf) got err]))"

definition Close_File :: "os \<Rightarrow> File \<Rightarrow> history \<Rightarrow> error option \<times> history" where
  "Close_File sys f h =
     (let err = File_Close sys h f
      in (err, h @ [EvClose f err]))"

text \<open>\<open>make([]byte, n)\<close>: a zeroed slice, or the runtime's panic on a length out of range.\<close>

datatype panic = MakesliceLenOutOfRange

definition make_bytes :: "os \<Rightarrow> int \<Rightarrow> panic + byte list" where
  "make_bytes sys n =
     (if n < 0 \<or> maxAlloc sys < n then Inl MakesliceLenOutOfRange
      else Inr (replicate (nat n) 0))"

text \<open>\<open>fmt.Sprintf("%d", bus)\<close>: the decimal digits, with a minus sign when negative.\<close>

fun digits :: "nat \<Rightarrow> string" where
  "digits n =
     (if n < 10 then [char_of (48 + n)]
      else digits (n div 10) @ [char_of (48 + n mod 10)])"

declare digits.simps [simp del]

definition Sprintf_d :: "int \<Rightarrow> string" where
  "Sprintf_d i = (if i < 0 then CHR ''-'' # digits (nat (- i)) else digits (nat i))"

section \<open>Package i2c\<close>

definition i2cSlave :: uintptr where
  "i2cSlave = 0x0703"

definition O_RDWR :: int where
  "O_RDWR = 2"

text \<open>The permission bits \<open>0600\<close> (octal).\<close>

definition perm_0600 :: nat where
  "perm_0600 = 6 * 64"

record I2C =
  rc :: File

definition ioctl :: "os \<Rightarrow> uintptr \<Rightarrow> uintptr \<Rightarrow> uintptr \<Rightarrow> history \<Rightarrow> error option \<times> history" where
  "ioctl sys fd cmd arg h =
     (let err = sys_ioctl sys h fd cmd arg;
          h1 = h @ [EvIoctl fd cmd arg err]
      in if err \<noteq> 0 then (Some (Errno err), h1) else (None, h1))"

definition NewI2C :: "os \<Rightarrow> byte \<Rightarrow> int \<Rightarrow> history \<Rightarrow> (error + I2C) \<times> history" where
  "NewI2C sys addr bus h =
     (case OpenFile sys (''/dev/i2c-'' @ Sprintf_d bus) O_RDWR perm_0600 h of
        (Inl err, h1) \<Rightarrow> (Inl err, h1)
      | (Inr f, h1) \<Rightarrow>
          (case ioctl sys (Fd f) i2cSlave (ucast addr) h1 of
             (Some err, h2) \<Rightarrow> (Inl err, h2)
           | (None, h2) \<Rightarrow> (Inr \<lparr>rc = f\<rparr>, h2)))"

definition "write" :: "os \<Rightarrow> I2C \<Rightarrow> byte list \<Rightarrow> history \<Rightarrow> (int \<times> error option) \<times> history" where
  "write sys v buf h = Write sys (rc v) buf h"

definition WriteBytes :: "os \<Rightarrow> I2C \<Rightarrow> byte list \<Rightarrow> history \<Rightarrow> (int \<times> error option) \<times> history" where
  "WriteBytes sys v buf h = write sys v buf h"

definition read :: "os \<Rightarrow> I2C \<Rightarrow> byte list \<Rightarrow> history \<Rightarrow> (byte list \<times> int \<times> error option) \<times> history" where
  "read sys v buf h = Read sys (rc v) buf h"

definition ReadBytes :: "os \<Rightarrow> I2C \<Rightarrow> byte list \<Rightarrow> history \<Rightarrow> (byte list \<times> int \<times> error option) \<times> history" where
  "ReadBytes sys v buf h = read sys v buf h"

definition Close :: "os \<Rightarrow> I2C \<Rightarrow> history \<Rightarrow> error option \<times> history" where
  "Close sys v h = Close_File sys (rc v) h"

text \<open>
  The register operations return \<open>Inl err\<close> where the Go returns the zero value and
  \<open>err\<close>, and \<open>Inr\<close> of the value where it returns the value and \<open>nil\<close>.
\<close>

definition ReadRegBytes ::
  "os \<Rightarrow> I2C \<Rightarrow> byte \<Rightarrow> int \<Rightarrow> history \<Rightarrow> (panic + (error + byte list \<times> int)) \<times> history" where
  "ReadRegBytes sys v reg n h =
     (case WriteBytes sys v [reg] h of
        ((_, Some err), h1) \<Rightarrow> (Inr (Inl err), h1)
      | ((_, None), h1) \<Rightarrow>
          (case make_bytes sys n of
             Inl p \<Rightarrow> (Inl p, h1)
           | Inr buf0 \<Rightarrow>
               (case ReadBytes sys v buf0 h1 of
                  ((buf, c, Some err), h2) \<Rightarrow> (Inr (Inl err), h2)
                | ((buf, c, None), h2) \<Rightarrow> (Inr (Inr (buf, c)), h2))))"

definition ReadRegU8 :: "os \<Rightarrow> I2C \<Rightarrow> byte \<Rightarrow> history \<Rightarrow> (error + byte) \<times> history" where
  "ReadRegU8 sys v reg h =
     (case WriteBytes sys v [reg] h of
        ((_, Some err), h1) \<Rightarrow> (Inl err, h1)
      | ((_, None), h1) \<Rightarrow>
          (case ReadBytes sys v (replicate 1 0) h1 of
             ((buf, _, Some err), h2) \<Rightarrow> (Inl err, h2)
           | ((buf, _, None), h2) \<Rightarrow> (Inr (buf ! 0), h2)))"

definition WriteRegU8 :: "os \<Rightarrow> I2C \<Rightarrow> byte \<Rightarrow> byte \<Rightarrow> history \<Rightarrow> error option \<times> history" where
  "WriteRegU8 sys v reg val h =
     (case WriteBytes sys v [reg, val] h of
        ((_, Some err), h1) \<Rightarrow> (Some err, h1)
      | ((_, None), h1) \<Rightarrow> (None, h1))"

definition ReadRegU16BE :: "os \<Rightarrow> I2C \<Rightarrow> byte \<Rightarrow> history \<Rightarrow> (error + uint16) \<times> history" where
  "ReadRegU16BE sys v reg h =
     (case WriteBytes sys v [reg] h of
        ((_, Some err), h1) \<Rightarrow> (Inl err, h1)
      | ((_, None), h1) \<Rightarrow>
          (case ReadBytes sys v (replicate 2 0) h1 of
             ((buf, _, Some err), h2) \<Rightarrow> (Inl err, h2)
           | ((buf, _, None), h2) \<Rightarrow>
               (Inr (push_bit 8 (ucast (buf ! 0)) + ucast (buf ! 1)), h2)))"

definition ReadRegU16LE :: "os \<Rightarrow> I2C \<Rightarrow> byte \<Rightarrow> history \<Rightarrow> (error + uint16) \<times> history" where
  "ReadRegU16LE sys v reg h =
     (case ReadRegU16BE sys v reg h of
        (Inl err, h1) \<Rightarrow> (Inl err, h1)
      | (Inr w, h1) \<Rightarrow> (Inr (push_bit 8 (w AND 0xFF) + drop_bit 8 w), h1))"

definition ReadRegS16BE :: "os \<Rightarrow> I2C \<Rightarrow> byte \<Rightarrow> history \<Rightarrow> (error + int16) \<times> history" where
  "ReadRegS16BE sys v reg h =
     (case WriteBytes sys v [reg] h of
        ((_, Some err), h1) \<Rightarrow> (Inl err, h1)
      | ((_, None), h1) \<Rightarrow>
          (case ReadBytes sys v (replicate 2 0) h1 of
             ((buf, _, Some err), h2) \<Rightarrow> (Inl err, h2)
           | ((buf, _, None), h2) \<Rightarrow>
               (Inr (push_bit 8 (ucast (buf ! 0)) + ucast (buf ! 1)), h2)))"

definition ReadRegS16LE :: "os \<Rightarrow> I2C \<Rightarrow> byte \<Rightarrow> history \<Rightarrow> (error + int16) \<times> history" where
  "ReadRegS16LE sys v reg h =
     (case ReadRegS16BE sys v reg h of
        (Inl err, h1) \<Rightarrow> (Inl err, h1)
      | (Inr w, h1) \<Rightarrow> (Inr (push_bit 8 (w AND 0xFF) + signed_drop_bit 8 w), h1))"

definition WriteRegU16BE :: "os \<Rightarrow> I2C \<Rightarrow> byte \<Rightarrow> uint16 \<Rightarrow> history \<Rightarrow> error option \<times> history" where
  "WriteRegU16BE sys v reg val h =
     (case WriteBytes sys v [reg, ucast (drop_bit 8 (val AND 0xFF00)), ucast (val AND 0xFF)] h of
        ((_, Some err), h1) \<Rightarrow> (Some err, h1)
      | ((_, None), h1) \<Rightarrow> (None, h1))"

definition WriteRegU16LE :: "os \<Rightarrow> I2C \<Rightarrow> byte \<Rightarrow> uint16 \<Rightarrow> history \<Rightarrow> error option \<times> history" where
  "WriteRegU16LE sys v reg val h =
     (let w = drop_bit 8 (val * 0xFF00) + push_bit 8 val
      in WriteRegU16BE sys v reg w h)"

definition WriteRegS16BE :: "os \<Rightarrow> I2C \<Rightarrow> byte \<Rightarrow> int16 \<Rightarrow> history \<Rightarrow> error option \<times> history" where
  "WriteRegS16BE sys v reg val h =
     (case WriteBytes sys v
             [reg, ucast (drop_bit 8 (val AND 0xFF00)), ucast (val AND 0xFF)] h of
        ((_, Some err), h1) \<Rightarrow> (Some err, h1)
      | ((_, None), h1) \<Rightarrow> (None, h1))"

definition WriteRegS16LE :: "os \<Rightarrow> I2C \<Rightarrow> byte \<Rightarrow> int16 \<Rightarrow> history \<Rightarrow> error option \<times> history" where
  "WriteRegS16LE sys v reg val h =
     (let w = drop_bit 8 (val * 0xFF00) + push_bit 8 val
      in WriteRegS16BE sys v reg w h)"

section \<open>Notions of the specification\<close>

text \<open>
  The byte swap in the specification's words: \<open>((w & 0xFF) << 8) | (w >> 8)\<close>, on the
  16-bit pattern (a logical shift), and the two bytes \<open>hi(v)\<close> and \<open>lo(v)\<close> of a word.
\<close>

definition spec_swap :: "uint16 \<Rightarrow> uint16" where
  "spec_swap w = push_bit 8 (w AND 0xFF) OR drop_bit 8 w"

definition hi_byte :: "uint16 \<Rightarrow> byte" where
  "hi_byte w = ucast (drop_bit 8 w)"

definition lo_byte :: "uint16 \<Rightarrow> byte" where
  "lo_byte w = ucast w"

text \<open>The 16-bit pattern \<open>(b1 << 8) | b0\<close> of a little-endian response \<open>[b0, b1]\<close>.\<close>

definition spec_le_word :: "byte \<Rightarrow> byte \<Rightarrow> int16" where
  "spec_le_word b0 b1 = push_bit 8 (ucast b1) OR ucast b0"

text \<open>
  What a zeroed buffer holds at position \<open>i\<close> once a read has stored \<open>data\<close> at its
  front: the byte read, or the zero that was there.
\<close>

definition byte_at :: "byte list \<Rightarrow> nat \<Rightarrow> byte" where
  "byte_at data i = (if i < length data then data ! i else 0)"

text \<open>The payload of a write: the bytes after the register index.\<close>

fun payload_of :: "event \<Rightarrow> byte list" where
  "payload_of (EvWrite f (r # bs) n err) = bs"
| "payload_of ev = []"

text \<open>
  The files this process holds after a history: those a successful \<open>os.OpenFile\<close>
  returned and no \<open>Close\<close> has released since.
\<close>

fun held_step :: "File list \<Rightarrow> event \<Rightarrow> File list" where
  "held_step fs (EvOpenFile name flag perm (Inr f)) = fs @ [f]"
| "held_step fs (EvClose f err) = removeAll f fs"
| "held_step fs ev = fs"

definition held :: "history \<Rightarrow> File list" where
  "held h = foldl held_step [] h"

text \<open>
  The device node a file was opened on and the address its descriptor was last bound to
  by a successful \<open>I2C_SLAVE\<close> ioctl, read off the history.
\<close>

fun bind_step :: "File \<Rightarrow> string option \<times> uintptr option \<Rightarrow> event \<Rightarrow> string option \<times> uintptr option" where
  "bind_step f b (EvOpenFile name flag perm (Inr f')) = (if f' = f then (Some name, None) else b)"
| "bind_step f b (EvIoctl fd cmd arg err) =
     (if fd = Fd f \<and> cmd = i2cSlave \<and> err = 0 then (fst b, Some arg) else b)"
| "bind_step f b ev = b"

definition binding :: "history \<Rightarrow> File \<Rightarrow> string option \<times> uintptr option" where
  "binding h f = foldl (bind_step f) (None, None) h"

fun is_open_or_bind :: "event \<Rightarrow> bool" where
  "is_open_or_bind (EvOpenFile name flag perm r) = True"
| "is_open_or_bind (EvIoctl fd cmd arg err) = True"
| "is_open_or_bind ev = False"

text \<open>
  A client of a connection: any sequence of calls of the exported methods, each on the
  history the one before left (a call that panicked leaves the history it had reached).
\<close>

datatype call =
    Call_WriteBytes "byte list"
  | Call_ReadBytes "byte list"
  | Call_Close
  | Call_ReadRegBytes byte int
  | Call_ReadRegU8 byte
  | Call_WriteRegU8 byte byte
  | Call_ReadRegU16BE byte
  | Call_ReadRegU16LE byte
  | Call_ReadRegS16BE byte
  | Call_ReadRegS16LE byte
  | Call_WriteRegU16BE byte uint16
  | Call_WriteRegU16LE byte uint16
  | Call_WriteRegS16BE byte int16
  | Call_WriteRegS16LE byte int16

fun perform :: "os \<Rightarrow> I2C \<Rightarrow> history \<Rightarrow> call \<Rightarrow> history" where
  "perform sys v h (Call_WriteBytes buf) = snd (WriteBytes sys v buf h)"
| "perform sys v h (Call_ReadBytes buf) = snd (ReadBytes sys v buf h)"
| "perform sys v h Call_Close = snd (Close sys v h)"
| "perform sys v h (Call_ReadRegBytes reg n) = snd (ReadRegBytes sys v reg n h)"
| "perform sys v h (Call_ReadRegU8 reg) = snd (ReadRegU8 sys v reg h)"
| "perform sys v h (Call_WriteRegU8 reg val) = snd (WriteRegU8 sys v reg val h)"
| "perform sys v h (Call_ReadRegU16BE reg) = snd (ReadRegU16BE sys v reg h)"
| "perform sys v h (Call_ReadRegU16LE reg) = snd (ReadRegU16LE sys v reg h)"
| "perform sys v h (Call_ReadRegS16BE reg) = snd (ReadRegS16BE sys v reg h)"
| "perform sys v h (Call_ReadRegS16LE reg) = snd (ReadRegS16LE sys v reg h)"
| "perform sys v h (Call_WriteRegU16BE reg val) = snd (WriteRegU16BE sys v reg val h)"
| "perform sys v h (Call_WriteRegU16LE reg val) = snd (WriteRegU16LE sys v reg val h)"
| "perform sys v h (Call_WriteRegS16BE reg val) = snd (WriteRegS16BE sys v reg val h)"
| "perform sys v h (Call_WriteRegS16LE reg val) = snd (WriteRegS16LE sys v reg val h)"

definition perform_all :: "os \<Rightarrow> I2C \<Rightarrow> history \<Rightarrow> call list \<Rightarrow> history" where
  "perform_all sys v h calls = foldl (perform sys v) h calls"

section \<open>Systems to run the package on\<close>

text \<open>
  A system where every call succeeds: \<open>os.OpenFile\<close> returns descriptor 3, a write
  takes the whole buffer and the device answers every read with the bytes \<open>resp\<close>.
\<close>

definition os_answering :: "byte list \<Rightarrow> os" where
  "os_answering resp =
     \<lparr> os_OpenFile = (\<lambda>h name flag perm. Inr (File 3)),
       sys_ioctl = (\<lambda>h fd cmd arg. 0),
       File_Write = (\<lambda>h f buf. (int (length buf), None)),
       File_Read = (\<lambda>h f n. (resp, None)),
       File_Close = (\<lambda>h f. None),
       maxAlloc = 2 ^ 31 \<rparr>"

text \<open>The same, but the driver rejects the bind with \<open>EBUSY\<close> (16).\<close>

definition os_bind_fails :: os where
  "os_bind_fails = (os_answering []) \<lparr> sys_ioctl := (\<lambda>h fd cmd arg. 16) \<rparr>"

text \<open>The same, but every write fails with \<open>EIO\<close> (5), or every read does.\<close>

definition os_write_fails :: os where
  "os_write_fails = (os_answering []) \<lparr> File_Write := (\<lambda>h f buf. (0, Some (Errno 5))) \<rparr>"

definition os_read_fails :: os where
  "os_read_fails = (os_answering []) \<lparr> File_Read := (\<lambda>h f n. ([], Some (Errno 5))) \<rparr>"

text \<open>A loopback device: a read returns the payload of the last write that carried one.\<close>

definition os_loopback :: os where
  "os_loopback = (os_answering [])
     \<lparr> File_Read := (\<lambda>h f n.
          (take n (payload_of (last (filter (\<lambda>ev. payload_of ev \<noteq> []) h))), None)) \<rparr>"

section \<open>Words\<close>

lemma and_FF: "(w :: 16 word) AND 0xFF = take_bit 8 w"
  by (simp add: take_bit_eq_mask mask_eq_exp_minus_1)

lemma and_FF00: "drop_bit 8 ((w :: 16 word) AND 0xFF00) = drop_bit 8 w"
proof -
  have eq: "(0xFF00 :: 16 word) = push_bit 8 (mask 8)"
    by (simp add: mask_eq_exp_minus_1 push_bit_eq_mult)
  show ?thesis
    unfolding eq by (auto simp: bit_eq_iff bit_simps dest: bit_imp_le_length)
qed

lemma ucast_and_FF: "(ucast ((w :: 16 word) AND 0xFF) :: byte) = ucast w"
  unfolding and_FF by (auto simp: bit_eq_iff bit_simps)

lemma swap_add_or:
  "push_bit 8 ((w :: 16 word) AND 0xFF) + drop_bit 8 w = push_bit 8 (w AND 0xFF) OR drop_bit 8 w"
  unfolding and_FF
  by (rule disjunctive_add) (auto simp: bit_simps dest: bit_imp_le_length)

text \<open>Decoding the big-endian bytes of a word gives the word back.\<close>

lemma be_decode:
  "push_bit 8 (ucast (ucast (drop_bit 8 x) :: byte)) + ucast (ucast x :: byte) = (x :: 16 word)"
proof -
  have "push_bit 8 (ucast (ucast (drop_bit 8 x) :: byte)) + ucast (ucast x :: byte)
      = push_bit 8 (ucast (ucast (drop_bit 8 x) :: byte)) OR (ucast (ucast x :: byte) :: 16 word)"
    by (rule disjunctive_add) (auto simp: bit_simps)
  also have "\<dots> = x"
    by (auto simp: bit_eq_iff bit_simps)
  finally show ?thesis .
qed

lemma unat_ucast_byte: "unat (ucast (b :: byte) :: 16 word) = unat b"
proof -
  have "unat b < 2 ^ 16"
    using unsigned_less [of b, where 'a = nat] by simp
  then show ?thesis
    by (simp add: unsigned_ucast_eq [where 'a = nat] take_bit_nat_eq_self)
qed

lemma unat_push_byte: "unat (push_bit 8 (ucast (b :: byte) :: 16 word)) = unat b * 256"
proof -
  have "unat b < 256"
    using unsigned_less [of b, where 'a = nat] by simp
  then have "unat (ucast b :: 16 word) * unat (256 :: 16 word) < 2 ^ LENGTH(16)"
    by (simp add: unat_ucast_byte)
  then have "unat ((ucast b :: 16 word) * 256) = unat (ucast b :: 16 word) * unat (256 :: 16 word)"
    by (simp only: unat_mult_lem)
  then show ?thesis
    by (simp add: push_bit_eq_mult unat_ucast_byte)
qed

lemma swap_as_sum: "spec_swap x = push_bit 8 (ucast (lo_byte x)) + ucast (hi_byte x)"
proof -
  have "push_bit 8 (ucast (lo_byte x)) + (ucast (hi_byte x) :: 16 word)
      = push_bit 8 (ucast (lo_byte x)) OR ucast (hi_byte x)"
    by (rule disjunctive_add) (auto simp: bit_simps dest: bit_imp_le_length)
  also have "\<dots> = spec_swap x"
    unfolding spec_swap_def and_FF lo_byte_def hi_byte_def
    by (auto simp: bit_eq_iff bit_simps dest: bit_imp_le_length)
  finally show ?thesis by simp
qed

lemma unat_spec_swap: "unat (spec_swap x) = unat (lo_byte x) * 256 + unat (hi_byte x)"
proof -
  have l: "unat (lo_byte x) < 256"
    using unsigned_less [of "lo_byte x", where 'a = nat] by simp
  have h: "unat (hi_byte x) < 256"
    using unsigned_less [of "hi_byte x", where 'a = nat] by simp
  have "unat (push_bit 8 (ucast (lo_byte x) :: 16 word)) + unat (ucast (hi_byte x) :: 16 word)
          < 2 ^ LENGTH(16)"
    using l h by (simp add: unat_ucast_byte unat_push_byte)
  then have "unat (push_bit 8 (ucast (lo_byte x) :: 16 word) + ucast (hi_byte x))
           = unat (push_bit 8 (ucast (lo_byte x) :: 16 word)) + unat (ucast (hi_byte x) :: 16 word)"
    by (simp only: unat_add_lem)
  then show ?thesis
    by (simp only: swap_as_sum unat_ucast_byte unat_push_byte)
qed

lemma mul_FF00: "(x :: 16 word) * 0xFF00 = push_bit 8 (- x)"
proof -
  have "(0xFF00 :: 16 word) = - 256" by simp
  then have "x * 0xFF00 = x * (- 256)" by (simp only:)
  also have "\<dots> = (- x) * 2 ^ 8" by simp
  finally show ?thesis by (simp only: push_bit_eq_mult)
qed

lemma drop_push_8: "drop_bit 8 (push_bit 8 (y :: 16 word)) = take_bit 8 y"
  by (auto simp: bit_eq_iff bit_simps)

lemma push_take_8: "push_bit 8 (take_bit 8 (y :: 16 word)) = push_bit 8 y"
  by (auto simp: bit_eq_iff bit_simps)

lemma spec_swap_sum: "spec_swap x = push_bit 8 x + drop_bit 8 x"
proof -
  have "spec_swap x = push_bit 8 (x AND 0xFF) + drop_bit 8 x"
    by (simp only: spec_swap_def swap_add_or)
  also have "push_bit 8 (x AND 0xFF) = push_bit 8 x"
    by (simp only: and_FF push_take_8)
  finally show ?thesis .
qed

text \<open>
  The word \<open>WriteRegU16LE\<close> and \<open>WriteRegS16LE\<close> hand to the big-endian writer is
  the swap of \<open>x\<close> exactly when the high byte of \<open>x\<close> is the negation of its low byte.
\<close>

lemma le_writer_word:
  "drop_bit 8 (x * 0xFF00) + push_bit 8 x = (take_bit 8 (- x) + push_bit 8 x :: 16 word)"
  unfolding mul_FF00 drop_push_8 ..

lemma le_writer_word_is_swap_iff:
  "drop_bit 8 (x * 0xFF00) + push_bit 8 x = spec_swap x \<longleftrightarrow> drop_bit 8 x = take_bit 8 (- x)"
  unfolding le_writer_word spec_swap_sum by auto

lemma signed_drop_8:
  "signed_drop_bit 8 (w :: 16 word) = drop_bit 8 w + (if bit w 15 then 0xFF00 else 0)"
proof -
  have eq: "(0xFF00 :: 16 word) = push_bit 8 (mask 8)"
    by (simp add: mask_eq_exp_minus_1 push_bit_eq_mult)
  have "drop_bit 8 w + (if bit w 15 then 0xFF00 else 0) = drop_bit 8 w OR (if bit w 15 then 0xFF00 else 0)"
    unfolding eq by (rule disjunctive_add) (auto simp: bit_simps dest: bit_imp_le_length)
  also have "\<dots> = signed_drop_bit 8 w"
    unfolding eq by (auto simp: bit_eq_iff bit_simps dest: bit_imp_le_length)
  finally show ?thesis by simp
qed

lemma s16le_exchange_is_swap_iff:
  "push_bit 8 ((w :: 16 word) AND 0xFF) + signed_drop_bit 8 w = spec_swap w \<longleftrightarrow> \<not> bit w 15"
proof -
  have "push_bit 8 (w AND 0xFF) + signed_drop_bit 8 w
      = spec_swap w + (if bit w 15 then 0xFF00 else 0)"
    unfolding signed_drop_8 spec_swap_def swap_add_or [symmetric] by simp
  then show ?thesis by simp
qed

section \<open>The two transfers\<close>

lemma WriteBytes_eq:
  "File_Write sys h (rc v) buf = (n, err) \<Longrightarrow>
   WriteBytes sys v buf h = ((n, err), h @ [EvWrite (rc v) buf n err])"
  by (simp add: WriteBytes_def write_def Write_def)

lemma ReadBytes_eq:
  "length buf = L \<Longrightarrow> File_Read sys h (rc v) L = (data, err) \<Longrightarrow>
   ReadBytes sys v buf h =
     ((take L data @ drop (length (take L data)) buf, int (length (take L data)), err),
      h @ [EvRead (rc v) L (take L data) err])"
  by (simp add: ReadBytes_def read_def Read_def Let_def)

lemma filled_nth:
  "i < L \<Longrightarrow> (take L data @ drop (length (take L data)) (replicate L 0)) ! i = byte_at data i"
  by (auto simp: byte_at_def nth_append min_def)

lemma ReadRegU16BE_ok:
  assumes "File_Write sys h (rc v) [reg] = (c, None)"
      and "File_Read sys (h @ [EvWrite (rc v) [reg] c None]) (rc v) 2 = (data, None)"
  shows "ReadRegU16BE sys v reg h =
     (Inr (push_bit 8 (ucast (byte_at data 0)) + ucast (byte_at data 1)),
      h @ [EvWrite (rc v) [reg] c None, EvRead (rc v) 2 (take 2 data) None])"
proof -
  have n0: "(take 2 data @ drop (length (take 2 data)) (replicate 2 0)) ! 0 = byte_at data 0"
    by (rule filled_nth) simp
  have n1: "(take 2 data @ drop (length (take 2 data)) (replicate 2 0)) ! 1 = byte_at data 1"
    by (rule filled_nth) simp
  have rd: "ReadBytes sys v (replicate 2 0) (h @ [EvWrite (rc v) [reg] c None]) =
     ((take 2 data @ drop (length (take 2 data)) (replicate 2 0), int (length (take 2 data)), None),
      h @ [EvWrite (rc v) [reg] c None] @ [EvRead (rc v) 2 (take 2 data) None])"
    using ReadBytes_eq [OF _ assms(2), of "replicate 2 0"] by simp
  show ?thesis
    unfolding ReadRegU16BE_def WriteBytes_eq [OF assms(1)]
    by (simp only: prod.case option.case rd n0 n1) simp
qed

lemma ReadRegS16BE_ok:
  assumes "File_Write sys h (rc v) [reg] = (c, None)"
      and "File_Read sys (h @ [EvWrite (rc v) [reg] c None]) (rc v) 2 = (data, None)"
  shows "ReadRegS16BE sys v reg h =
     (Inr (push_bit 8 (ucast (byte_at data 0)) + ucast (byte_at data 1)),
      h @ [EvWrite (rc v) [reg] c None, EvRead (rc v) 2 (take 2 data) None])"
  using ReadRegU16BE_ok [OF assms] by (simp add: ReadRegS16BE_def ReadRegU16BE_def)

lemma ReadRegU8_ok:
  assumes "File_Write sys h (rc v) [reg] = (c, None)"
      and "File_Read sys (h @ [EvWrite (rc v) [reg] c None]) (rc v) 1 = (data, None)"
  shows "ReadRegU8 sys v reg h =
     (Inr (byte_at data 0),
      h @ [EvWrite (rc v) [reg] c None, EvRead (rc v) 1 (take 1 data) None])"
proof -
  have n0: "(take 1 data @ drop (length (take 1 data)) (replicate 1 0)) ! 0 = byte_at data 0"
    by (rule filled_nth) simp
  have rd: "ReadBytes sys v (replicate 1 0) (h @ [EvWrite (rc v) [reg] c None]) =
     ((take 1 data @ drop (length (take 1 data)) (replicate 1 0), int (length (take 1 data)), None),
      h @ [EvWrite (rc v) [reg] c None] @ [EvRead (rc v) 1 (take 1 data) None])"
    using ReadBytes_eq [OF _ assms(2), of "replicate 1 0"] by simp
  show ?thesis
    unfolding ReadRegU8_def WriteBytes_eq [OF assms(1)]
    by (simp only: prod.case option.case rd n0) simp
qed

lemma ReadRegU16LE_of_BE:
  "ReadRegU16BE sys v reg h = (Inr w, h1) \<Longrightarrow>
   ReadRegU16LE sys v reg h = (Inr (push_bit 8 (w AND 0xFF) + drop_bit 8 w), h1)"
  unfolding ReadRegU16LE_def by (simp only: prod.case sum.case)

lemma ReadRegS16LE_of_BE:
  "ReadRegS16BE sys v reg h = (Inr w, h1) \<Longrightarrow>
   ReadRegS16LE sys v reg h = (Inr (push_bit 8 (w AND 0xFF) + signed_drop_bit 8 w), h1)"
  unfolding ReadRegS16LE_def by (simp only: prod.case sum.case)

lemma byte_at_pair: "byte_at [a, b] 0 = a" "byte_at [a, b] 1 = b"
  by (simp_all add: byte_at_def)

section \<open>Opening a connection\<close>

text \<open>
  Whenever \<open>os.OpenFile\<close> returns a file and the ioctl an errno, \<open>NewI2C\<close> returns
  that errno and has issued the open and the ioctl, and nothing else: the file is held.
\<close>

lemma NewI2C_bind_failure:
  assumes "os_OpenFile sys h (''/dev/i2c-'' @ Sprintf_d bus) O_RDWR perm_0600 = Inr f"
      and "sys_ioctl sys (h @ [EvOpenFile (''/dev/i2c-'' @ Sprintf_d bus) O_RDWR perm_0600 (Inr f)])
             (Fd f) i2cSlave (ucast addr) = e"
      and "e \<noteq> 0"
  shows "NewI2C sys addr bus h =
     (Inl (Errno e),
      h @ [EvOpenFile (''/dev/i2c-'' @ Sprintf_d bus) O_RDWR perm_0600 (Inr f),
           EvIoctl (Fd f) i2cSlave (ucast addr) e])"
  using assms by (simp add: NewI2C_def OpenFile_def ioctl_def Let_def)

lemma NewI2C_bind_failure_held:
  assumes "os_OpenFile sys h (''/dev/i2c-'' @ Sprintf_d bus) O_RDWR perm_0600 = Inr f"
      and "sys_ioctl sys (h @ [EvOpenFile (''/dev/i2c-'' @ Sprintf_d bus) O_RDWR perm_0600 (Inr f)])
             (Fd f) i2cSlave (ucast addr) \<noteq> 0"
  shows "f \<in> set (held (snd (NewI2C sys addr bus h)))"
  using NewI2C_bind_failure [OF assms(1) refl assms(2)]
  by (simp add: held_def)

text \<open>
  C4. Where \<open>os.OpenFile\<close> succeeds and the driver rejects the bind, \<open>NewI2C\<close> returns
  the bind error with the file still open: the history ends with the failed ioctl, no
  \<open>Close\<close> follows the open, and the file is among those held. The claim asks for the
  file to be released before the error is returned.
\<close>

theorem NewI2C_bind_failure_keeps_file:
  "NewI2C os_bind_fails 0x48 1 [] =
     (Inl (Errno 16),
      [EvOpenFile ''/dev/i2c-1'' 2 384 (Inr (File 3)), EvIoctl 3 0x0703 0x48 16])
   \<and> held (snd (NewI2C os_bind_fails 0x48 1 [])) = [File 3]"
  by code_simp

section \<open>Little-endian writes\<close>

text \<open>
  The word both little-endian writers hand to their big-endian writer: the low byte of
  \<open>x\<close> in the high half, and the low byte of \<open>- x\<close> in the low half. By
  \<open>le_writer_word_is_swap_iff\<close> it is the swap of \<open>x\<close> only when the high byte of \<open>x\<close>
  is the negation of its low byte.
\<close>

lemma WriteRegU16LE_hands_over:
  "WriteRegU16LE sys v reg x h = WriteRegU16BE sys v reg (take_bit 8 (- x) + push_bit 8 x) h"
  unfolding WriteRegU16LE_def Let_def le_writer_word ..

lemma WriteRegS16LE_hands_over:
  "WriteRegS16LE sys v reg x h = WriteRegS16BE sys v reg (take_bit 8 (- x) + push_bit 8 x) h"
  unfolding WriteRegS16LE_def Let_def le_writer_word ..

text \<open>
  C1. \<open>WriteRegU16LE\<close> at the value \<open>0x1234\<close> hands \<open>0x34CC\<close> to the big-endian
  writer, which sends the bytes \<open>0x34, 0xCC\<close> after the register index; the big-endian
  writer at \<open>swap(0x1234) = 0x3412\<close> sends \<open>0x34, 0x12\<close>. The claim asks for the two
  transfers to be the same.
\<close>

theorem WriteRegU16LE_at_0x1234:
  "WriteRegU16LE (os_answering []) \<lparr>rc = File 3\<rparr> 0x10 0x1234 [] =
     WriteRegU16BE (os_answering []) \<lparr>rc = File 3\<rparr> 0x10 0x34CC []
   \<and> snd (WriteRegU16LE (os_answering []) \<lparr>rc = File 3\<rparr> 0x10 0x1234 []) =
     [EvWrite (File 3) [0x10, 0x34, 0xCC] 3 None]
   \<and> snd (WriteRegU16BE (os_answering []) \<lparr>rc = File 3\<rparr> 0x10 (spec_swap 0x1234) []) =
     [EvWrite (File 3) [0x10, 0x34, 0x12] 3 None]"
  by code_simp

text \<open>
  C2. \<open>WriteRegS16LE(0x10, -1)\<close> issues one write of the bytes \<open>0x10, 0xFF, 0x01\<close>: the
  second payload byte is \<open>0x01\<close>, where the claim asks for \<open>0xFF\<close>, the high byte of
  the pattern of \<open>-1\<close>.
\<close>

theorem WriteRegS16LE_at_minus_1:
  "snd (WriteRegS16LE (os_answering []) \<lparr>rc = File 3\<rparr> 0x10 (- 1) []) =
     [EvWrite (File 3) [0x10, 0xFF, 0x01] 3 None]
   \<and> [0x10, lo_byte (- 1), hi_byte (- 1)] = [0x10, 0xFF, 0xFF]"
  by code_simp

section \<open>Little-endian reads\<close>

text \<open>
  The signed little-endian read returns the swap of the big-endian value, plus
  \<open>0xFF00\<close> when that value is negative: the shift right of an \<open>int16\<close> extends the
  sign.
\<close>

lemma ReadRegS16LE_sign_extends:
  assumes "ReadRegS16BE sys v reg h = (Inr w, h1)"
  shows "ReadRegS16LE sys v reg h = (Inr (spec_swap w + (if bit w 15 then 0xFF00 else 0)), h1)"
proof -
  have "push_bit 8 (w AND 0xFF) + signed_drop_bit 8 w = spec_swap w + (if bit w 15 then 0xFF00 else 0)"
    unfolding signed_drop_8 spec_swap_def swap_add_or [symmetric] by simp
  then show ?thesis
    using ReadRegS16LE_of_BE [OF assms] by (simp only:)
qed

text \<open>
  C3. On the response \<open>[0x80, 0x00]\<close>, whose first byte has its high bit set,
  \<open>ReadRegS16LE\<close> returns the pattern \<open>0xFF80\<close>, the number \<open>-128\<close>; the claim asks for
  \<open>(b1 << 8) | b0 = 0x0080\<close>, the number \<open>128\<close>.
\<close>

theorem ReadRegS16LE_at_0x80_0x00:
  "fst (ReadRegS16LE (os_answering [0x80, 0x00]) \<lparr>rc = File 3\<rparr> 0x10 []) = Inr 0xFF80
   \<and> sint (0xFF80 :: int16) = - 128
   \<and> spec_le_word 0x80 0x00 = 0x0080"
  by code_simp

text \<open>
  C6. Where the index write succeeds and the device answers the read of two bytes with
  \<open>[hi(x), lo(x)]\<close>, the big-endian encoding of \<open>x\<close>, \<open>ReadRegU16LE\<close> returns
  \<open>swap(x)\<close>, which is the number \<open>lo(x) * 256 + hi(x)\<close>.
\<close>

theorem ReadRegU16LE_swaps_be:
  assumes "File_Write sys h (rc v) [reg] = (c, None)"
      and "File_Read sys (h @ [EvWrite (rc v) [reg] c None]) (rc v) 2 = ([hi_byte x, lo_byte x], None)"
  shows "fst (ReadRegU16LE sys v reg h) = Inr (spec_swap x)
       \<and> unat (spec_swap x) = unat (lo_byte x) * 256 + unat (hi_byte x)"
proof -
  have "ReadRegU16BE sys v reg h =
      (Inr x, h @ [EvWrite (rc v) [reg] c None, EvRead (rc v) 2 (take 2 [hi_byte x, lo_byte x]) None])"
    unfolding ReadRegU16BE_ok [OF assms] byte_at_pair hi_byte_def lo_byte_def be_decode ..
  from ReadRegU16LE_of_BE [OF this]
  have "fst (ReadRegU16LE sys v reg h) = Inr (spec_swap x)"
    unfolding swap_add_or spec_swap_def by (simp only: fst_conv)
  then show ?thesis
    using unat_spec_swap by blast
qed

theorem ReadRegU16LE_swaps_be_witness:
  "File_Write (os_answering [0x12, 0x34]) [] (rc \<lparr>rc = File 3\<rparr>) [0] = (1, None)
   \<and> File_Read (os_answering [0x12, 0x34]) ([] @ [EvWrite (rc \<lparr>rc = File 3\<rparr>) [0] 1 None])
        (rc \<lparr>rc = File 3\<rparr>) 2 = ([hi_byte 0x1234, lo_byte 0x1234], None)
   \<and> fst (ReadRegU16LE (os_answering [0x12, 0x34]) \<lparr>rc = File 3\<rparr> 0 []) = Inr 0x3412"
proof -
  have w: "File_Write (os_answering [0x12, 0x34]) [] (rc \<lparr>rc = File 3\<rparr>) [0] = (1, None)"
    by (simp add: os_answering_def)
  have r: "File_Read (os_answering [0x12, 0x34]) ([] @ [EvWrite (rc \<lparr>rc = File 3\<rparr>) [0] 1 None])
        (rc \<lparr>rc = File 3\<rparr>) 2 = ([hi_byte 0x1234, lo_byte 0x1234], None)"
    by (simp add: os_answering_def hi_byte_def lo_byte_def)
  have s: "spec_swap 0x1234 = 0x3412"
    by (simp add: spec_swap_def)
  show ?thesis
    using ReadRegU16LE_swaps_be [OF w r] w r s by simp
qed

section \<open>Round trip of a signed big-endian word\<close>

lemma WriteRegS16BE_history:
  "File_Write sys h (rc v) [reg, hi_byte x, lo_byte x] = (c, err) \<Longrightarrow>
   WriteRegS16BE sys v reg x h = (err, h @ [EvWrite (rc v) [reg, hi_byte x, lo_byte x] c err])"
  unfolding WriteRegS16BE_def and_FF00 ucast_and_FF hi_byte_def lo_byte_def
  by (cases err) (simp_all add: WriteBytes_eq)

lemma WriteRegS16BE_last:
  "payload_of (last (snd (WriteRegS16BE sys v reg x h))) = [hi_byte x, lo_byte x]"
proof -
  obtain c err where "File_Write sys h (rc v) [reg, hi_byte x, lo_byte x] = (c, err)"
    by (cases "File_Write sys h (rc v) [reg, hi_byte x, lo_byte x]")
  from WriteRegS16BE_history [OF this] show ?thesis by simp
qed

text \<open>
  C7. Write \<open>x\<close> with \<open>WriteRegS16BE\<close>; let the device then accept the register index
  and answer the read of two bytes with the payload that write carried (a loopback).
  Then \<open>ReadRegS16BE\<close> returns \<open>x\<close> itself, the same 16-bit pattern and so the same
  signed number, for every \<open>x\<close>, register, connection and earlier history.
\<close>

theorem S16BE_write_then_read:
  assumes "snd (WriteRegS16BE sys v reg x h) = h1"
      and "File_Write sys h1 (rc v) [reg] = (c, None)"
      and "File_Read sys (h1 @ [EvWrite (rc v) [reg] c None]) (rc v) 2 = (payload_of (last h1), None)"
  shows "fst (ReadRegS16BE sys v reg h1) = Inr x \<and> payload_of (last h1) = [hi_byte x, lo_byte x]"
proof -
  have p: "payload_of (last h1) = [hi_byte x, lo_byte x]"
    using WriteRegS16BE_last [of sys v reg x h] assms(1) by simp
  have "fst (ReadRegS16BE sys v reg h1) =
      Inr (push_bit 8 (ucast (byte_at [hi_byte x, lo_byte x] 0)) + ucast (byte_at [hi_byte x, lo_byte x] 1))"
    using ReadRegS16BE_ok [OF assms(2)] assms(3) unfolding p by simp
  then show ?thesis
    unfolding byte_at_pair hi_byte_def lo_byte_def be_decode using p
    by (simp add: hi_byte_def lo_byte_def)
qed


text \<open>The round trip of \<open>-2\<close> on the loopback device.\<close>

theorem S16BE_write_then_read_witness:
  "snd (WriteRegS16BE os_loopback \<lparr>rc = File 3\<rparr> 0x10 (- 2) []) =
     [EvWrite (File 3) [0x10, 0xFF, 0xFE] 3 None]
   \<and> File_Write os_loopback [EvWrite (File 3) [0x10, 0xFF, 0xFE] 3 None] (rc \<lparr>rc = File 3\<rparr>) [0x10] = (1, None)
   \<and> File_Read os_loopback
        ([EvWrite (File 3) [0x10, 0xFF, 0xFE] 3 None] @ [EvWrite (rc \<lparr>rc = File 3\<rparr>) [0x10] 1 None])
        (rc \<lparr>rc = File 3\<rparr>) 2 =
      (payload_of (last [EvWrite (File 3) [0x10, 0xFF, 0xFE] 3 None]), None)
   \<and> fst (ReadRegS16BE os_loopback \<lparr>rc = File 3\<rparr> 0x10 [EvWrite (File 3) [0x10, 0xFF, 0xFE] 3 None]) = Inr (- 2)
   \<and> sint (- 2 :: int16) = - 2"
proof -
  have a: "snd (WriteRegS16BE os_loopback \<lparr>rc = File 3\<rparr> 0x10 (- 2) []) =
     [EvWrite (File 3) [0x10, 0xFF, 0xFE] 3 None]"
    by code_simp
  have b: "File_Write os_loopback [EvWrite (File 3) [0x10, 0xFF, 0xFE] 3 None] (rc \<lparr>rc = File 3\<rparr>) [0x10] = (1, None)"
    by (simp add: os_loopback_def os_answering_def)
  have c: "File_Read os_loopback
        ([EvWrite (File 3) [0x10, 0xFF, 0xFE] 3 None] @ [EvWrite (rc \<lparr>rc = File 3\<rparr>) [0x10] 1 None])
        (rc \<lparr>rc = File 3\<rparr>) 2 =
      (payload_of (last [EvWrite (File 3) [0x10, 0xFF, 0xFE] 3 None]), None)"
    by (simp add: os_loopback_def os_answering_def)
  have d: "sint (- 2 :: int16) = - 2"
    by simp
  from S16BE_write_then_read [OF a b c] a b c d show ?thesis
    by simp
qed

section \<open>Failures of a transfer\<close>

lemma make_bytes_ok:
  "0 \<le> n \<Longrightarrow> n \<le> maxAlloc sys \<Longrightarrow> make_bytes sys n = Inr (replicate (nat n) 0)"
  by (simp add: make_bytes_def)

lemma ReadRegBytes_index_fails:
  "File_Write sys h (rc v) [reg] = (c, Some e) \<Longrightarrow>
   ReadRegBytes sys v reg n h = (Inr (Inl e), h @ [EvWrite (rc v) [reg] c (Some e)])"
  by (simp add: ReadRegBytes_def WriteBytes_eq)

lemma ReadRegU8_index_fails:
  "File_Write sys h (rc v) [reg] = (c, Some e) \<Longrightarrow>
   ReadRegU8 sys v reg h = (Inl e, h @ [EvWrite (rc v) [reg] c (Some e)])"
  by (simp add: ReadRegU8_def WriteBytes_eq)

lemma ReadRegU16BE_index_fails:
  "File_Write sys h (rc v) [reg] = (c, Some e) \<Longrightarrow>
   ReadRegU16BE sys v reg h = (Inl e, h @ [EvWrite (rc v) [reg] c (Some e)])"
  by (simp add: ReadRegU16BE_def WriteBytes_eq)

lemma ReadRegS16BE_index_fails:
  "File_Write sys h (rc v) [reg] = (c, Some e) \<Longrightarrow>
   ReadRegS16BE sys v reg h = (Inl e, h @ [EvWrite (rc v) [reg] c (Some e)])"
  by (simp add: ReadRegS16BE_def WriteBytes_eq)

lemma ReadRegU16LE_fails:
  "ReadRegU16BE sys v reg h = (Inl e, h1) \<Longrightarrow> ReadRegU16LE sys v reg h = (Inl e, h1)"
  by (simp add: ReadRegU16LE_def)

lemma ReadRegS16LE_fails:
  "ReadRegS16BE sys v reg h = (Inl e, h1) \<Longrightarrow> ReadRegS16LE sys v reg h = (Inl e, h1)"
  by (simp add: ReadRegS16LE_def)

lemma ReadRegBytes_run:
  assumes "File_Write sys h (rc v) [reg] = (c, None)"
      and "0 \<le> n" and "n \<le> maxAlloc sys"
      and "File_Read sys (h @ [EvWrite (rc v) [reg] c None]) (rc v) (nat n) = (data, err)"
  shows "ReadRegBytes sys v reg n h =
     ((case err of
         Some e \<Rightarrow> Inr (Inl e)
       | None \<Rightarrow> Inr (Inr (take (nat n) data @ drop (length (take (nat n) data)) (replicate (nat n) 0),
                            int (length (take (nat n) data))))),
      h @ [EvWrite (rc v) [reg] c None, EvRead (rc v) (nat n) (take (nat n) data) err])"
proof -
  have rd: "ReadBytes sys v (replicate (nat n) 0) (h @ [EvWrite (rc v) [reg] c None]) =
     ((take (nat n) data @ drop (length (take (nat n) data)) (replicate (nat n) 0),
       int (length (take (nat n) data)), err),
      h @ [EvWrite (rc v) [reg] c None] @ [EvRead (rc v) (nat n) (take (nat n) data) err])"
    using ReadBytes_eq [OF _ assms(4), of "replicate (nat n) 0"] by simp
  show ?thesis
    unfolding ReadRegBytes_def WriteBytes_eq [OF assms(1)] make_bytes_ok [OF assms(2,3)]
    by (simp only: prod.case option.case sum.case rd) (simp split: option.split)
qed

lemma ReadRegU8_read_fails:
  assumes "File_Write sys h (rc v) [reg] = (c, None)"
      and "File_Read sys (h @ [EvWrite (rc v) [reg] c None]) (rc v) 1 = (data, Some e)"
  shows "ReadRegU8 sys v reg h =
     (Inl e, h @ [EvWrite (rc v) [reg] c None, EvRead (rc v) 1 (take 1 data) (Some e)])"
proof -
  have rd: "ReadBytes sys v (replicate 1 0) (h @ [EvWrite (rc v) [reg] c None]) =
     ((take 1 data @ drop (length (take 1 data)) (replicate 1 0), int (length (take 1 data)), Some e),
      h @ [EvWrite (rc v) [reg] c None] @ [EvRead (rc v) 1 (take 1 data) (Some e)])"
    using ReadBytes_eq [OF _ assms(2), of "replicate 1 0"] by simp
  show ?thesis
    unfolding ReadRegU8_def WriteBytes_eq [OF assms(1)]
    by (simp only: prod.case option.case rd) simp
qed

lemma ReadRegU16BE_read_fails:
  assumes "File_Write sys h (rc v) [reg] = (c, None)"
      and "File_Read sys (h @ [EvWrite (rc v) [reg] c None]) (rc v) 2 = (data, Some e)"
  shows "ReadRegU16BE sys v reg h =
     (Inl e, h @ [EvWrite (rc v) [reg] c None, EvRead (rc v) 2 (take 2 data) (Some e)])"
proof -
  have rd: "ReadBytes sys v (replicate 2 0) (h @ [EvWrite (rc v) [reg] c None]) =
     ((take 2 data @ drop (length (take 2 data)) (replicate 2 0), int (length (take 2 data)), Some e),
      h @ [EvWrite (rc v) [reg] c None] @ [EvRead (rc v) 2 (take 2 data) (Some e)])"
    using ReadBytes_eq [OF _ assms(2), of "replicate 2 0"] by simp
  show ?thesis
    unfolding ReadRegU16BE_def WriteBytes_eq [OF assms(1)]
    by (simp only: prod.case option.case rd) simp
qed

lemma ReadRegS16BE_read_fails:
  assumes "File_Write sys h (rc v) [reg] = (c, None)"
      and "File_Read sys (h @ [EvWrite (rc v) [reg] c None]) (rc v) 2 = (data, Some e)"
  shows "ReadRegS16BE sys v reg h =
     (Inl e, h @ [EvWrite (rc v) [reg] c None, EvRead (rc v) 2 (take 2 data) (Some e)])"
  using ReadRegU16BE_read_fails [OF assms] by (simp add: ReadRegS16BE_def ReadRegU16BE_def)


text \<open>
  C5. The register operations made of two transfers are the six reads. If the write of
  the register index returns an error, each returns that error and the history holds
  the one write and nothing more. If that write succeeds and the read returns an error,
  each returns that error and the history holds the one write and the one read and
  nothing more: no transfer is repeated.
\<close>

theorem register_reads_stop_at_first_failure:
  "(File_Write sys h (rc v) [reg] = (c, Some e) \<longrightarrow>
        ReadRegBytes sys v reg n h = (Inr (Inl e), h @ [EvWrite (rc v) [reg] c (Some e)])
      \<and> ReadRegU8 sys v reg h = (Inl e, h @ [EvWrite (rc v) [reg] c (Some e)])
      \<and> ReadRegU16BE sys v reg h = (Inl e, h @ [EvWrite (rc v) [reg] c (Some e)])
      \<and> ReadRegU16LE sys v reg h = (Inl e, h @ [EvWrite (rc v) [reg] c (Some e)])
      \<and> ReadRegS16BE sys v reg h = (Inl e, h @ [EvWrite (rc v) [reg] c (Some e)])
      \<and> ReadRegS16LE sys v reg h = (Inl e, h @ [EvWrite (rc v) [reg] c (Some e)]))
   \<and> (File_Write sys h (rc v) [reg] = (c, None) \<and> 0 \<le> n \<and> n \<le> maxAlloc sys
      \<and> File_Read sys (h @ [EvWrite (rc v) [reg] c None]) (rc v) (nat n) = (data, Some e) \<longrightarrow>
        ReadRegBytes sys v reg n h =
          (Inr (Inl e),
           h @ [EvWrite (rc v) [reg] c None, EvRead (rc v) (nat n) (take (nat n) data) (Some e)]))
   \<and> (File_Write sys h (rc v) [reg] = (c, None)
      \<and> File_Read sys (h @ [EvWrite (rc v) [reg] c None]) (rc v) 1 = (data, Some e) \<longrightarrow>
        ReadRegU8 sys v reg h =
          (Inl e, h @ [EvWrite (rc v) [reg] c None, EvRead (rc v) 1 (take 1 data) (Some e)]))
   \<and> (File_Write sys h (rc v) [reg] = (c, None)
      \<and> File_Read sys (h @ [EvWrite (rc v) [reg] c None]) (rc v) 2 = (data, Some e) \<longrightarrow>
        ReadRegU16BE sys v reg h =
          (Inl e, h @ [EvWrite (rc v) [reg] c None, EvRead (rc v) 2 (take 2 data) (Some e)])
      \<and> ReadRegU16LE sys v reg h =
          (Inl e, h @ [EvWrite (rc v) [reg] c None, EvRead (rc v) 2 (take 2 data) (Some e)])
      \<and> ReadRegS16BE sys v reg h =
          (Inl e, h @ [EvWrite (rc v) [reg] c None, EvRead (rc v) 2 (take 2 data) (Some e)])
      \<and> ReadRegS16LE sys v reg h =
          (Inl e, h @ [EvWrite (rc v) [reg] c None, EvRead (rc v) 2 (take 2 data) (Some e)]))"
proof (intro conjI impI; (elim conjE)?)
  assume w: "File_Write sys h (rc v) [reg] = (c, Some e)"
  show "ReadRegBytes sys v reg n h = (Inr (Inl e), h @ [EvWrite (rc v) [reg] c (Some e)])"
    by (rule ReadRegBytes_index_fails [OF w])
  show "ReadRegU8 sys v reg h = (Inl e, h @ [EvWrite (rc v) [reg] c (Some e)])"
    by (rule ReadRegU8_index_fails [OF w])
  show "ReadRegU16BE sys v reg h = (Inl e, h @ [EvWrite (rc v) [reg] c (Some e)])"
    by (rule ReadRegU16BE_index_fails [OF w])
  show "ReadRegU16LE sys v reg h = (Inl e, h @ [EvWrite (rc v) [reg] c (Some e)])"
    by (rule ReadRegU16LE_fails [OF ReadRegU16BE_index_fails [OF w]])
  show "ReadRegS16BE sys v reg h = (Inl e, h @ [EvWrite (rc v) [reg] c (Some e)])"
    by (rule ReadRegS16BE_index_fails [OF w])
  show "ReadRegS16LE sys v reg h = (Inl e, h @ [EvWrite (rc v) [reg] c (Some e)])"
    by (rule ReadRegS16LE_fails [OF ReadRegS16BE_index_fails [OF w]])
next
  assume w: "File_Write sys h (rc v) [reg] = (c, None)" and n: "0 \<le> n" "n \<le> maxAlloc sys"
    and r: "File_Read sys (h @ [EvWrite (rc v) [reg] c None]) (rc v) (nat n) = (data, Some e)"
  show "ReadRegBytes sys v reg n h =
      (Inr (Inl e), h @ [EvWrite (rc v) [reg] c None, EvRead (rc v) (nat n) (take (nat n) data) (Some e)])"
    using ReadRegBytes_run [OF w n r] by simp
next
  assume w: "File_Write sys h (rc v) [reg] = (c, None)"
    and r: "File_Read sys (h @ [EvWrite (rc v) [reg] c None]) (rc v) 1 = (data, Some e)"
  show "ReadRegU8 sys v reg h =
      (Inl e, h @ [EvWrite (rc v) [reg] c None, EvRead (rc v) 1 (take 1 data) (Some e)])"
    by (rule ReadRegU8_read_fails [OF w r])
next
  assume w: "File_Write sys h (rc v) [reg] = (c, None)"
    and r: "File_Read sys (h @ [EvWrite (rc v) [reg] c None]) (rc v) 2 = (data, Some e)"
  show "ReadRegU16BE sys v reg h =
      (Inl e, h @ [EvWrite (rc v) [reg] c None, EvRead (rc v) 2 (take 2 data) (Some e)])"
    by (rule ReadRegU16BE_read_fails [OF w r])
  show "ReadRegU16LE sys v reg h =
      (Inl e, h @ [EvWrite (rc v) [reg] c None, EvRead (rc v) 2 (take 2 data) (Some e)])"
    by (rule ReadRegU16LE_fails [OF ReadRegU16BE_read_fails [OF w r]])
  show "ReadRegS16BE sys v reg h =
      (Inl e, h @ [EvWrite (rc v) [reg] c None, EvRead (rc v) 2 (take 2 data) (Some e)])"
    by (rule ReadRegS16BE_read_fails [OF w r])
  show "ReadRegS16LE sys v reg h =
      (Inl e, h @ [EvWrite (rc v) [reg] c None, EvRead (rc v) 2 (take 2 data) (Some e)])"
    by (rule ReadRegS16LE_fails [OF ReadRegS16BE_read_fails [OF w r]])
qed

text \<open>The six reads on a system whose writes fail, and on one whose reads fail.\<close>

theorem register_reads_stop_at_first_failure_witness:
  "File_Write os_write_fails [] (rc \<lparr>rc = File 3\<rparr>) [7] = (0, Some (Errno 5))
   \<and> ReadRegBytes os_write_fails \<lparr>rc = File 3\<rparr> 7 4 [] =
       (Inr (Inl (Errno 5)), [EvWrite (File 3) [7] 0 (Some (Errno 5))])
   \<and> ReadRegU8 os_write_fails \<lparr>rc = File 3\<rparr> 7 [] =
       (Inl (Errno 5), [EvWrite (File 3) [7] 0 (Some (Errno 5))])
   \<and> ReadRegU16BE os_write_fails \<lparr>rc = File 3\<rparr> 7 [] =
       (Inl (Errno 5), [EvWrite (File 3) [7] 0 (Some (Errno 5))])
   \<and> ReadRegU16LE os_write_fails \<lparr>rc = File 3\<rparr> 7 [] =
       (Inl (Errno 5), [EvWrite (File 3) [7] 0 (Some (Errno 5))])
   \<and> ReadRegS16BE os_write_fails \<lparr>rc = File 3\<rparr> 7 [] =
       (Inl (Errno 5), [EvWrite (File 3) [7] 0 (Some (Errno 5))])
   \<and> ReadRegS16LE os_write_fails \<lparr>rc = File 3\<rparr> 7 [] =
       (Inl (Errno 5), [EvWrite (File 3) [7] 0 (Some (Errno 5))])
   \<and> File_Write os_read_fails [] (rc \<lparr>rc = File 3\<rparr>) [7] = (1, None)
   \<and> (0 :: int) \<le> 4 \<and> 4 \<le> maxAlloc os_read_fails
   \<and> File_Read os_read_fails ([] @ [EvWrite (rc \<lparr>rc = File 3\<rparr>) [7] 1 None]) (rc \<lparr>rc = File 3\<rparr>) (nat 4) =
       ([], Some (Errno 5))
   \<and> File_Read os_read_fails ([] @ [EvWrite (rc \<lparr>rc = File 3\<rparr>) [7] 1 None]) (rc \<lparr>rc = File 3\<rparr>) 1 =
       ([], Some (Errno 5))
   \<and> File_Read os_read_fails ([] @ [EvWrite (rc \<lparr>rc = File 3\<rparr>) [7] 1 None]) (rc \<lparr>rc = File 3\<rparr>) 2 =
       ([], Some (Errno 5))
   \<and> ReadRegBytes os_read_fails \<lparr>rc = File 3\<rparr> 7 4 [] =
       (Inr (Inl (Errno 5)), [EvWrite (File 3) [7] 1 None, EvRead (File 3) 4 [] (Some (Errno 5))])
   \<and> ReadRegU8 os_read_fails \<lparr>rc = File 3\<rparr> 7 [] =
       (Inl (Errno 5), [EvWrite (File 3) [7] 1 None, EvRead (File 3) 1 [] (Some (Errno 5))])
   \<and> ReadRegU16BE os_read_fails \<lparr>rc = File 3\<rparr> 7 [] =
       (Inl (Errno 5), [EvWrite (File 3) [7] 1 None, EvRead (File 3) 2 [] (Some (Errno 5))])
   \<and> ReadRegU16LE os_read_fails \<lparr>rc = File 3\<rparr> 7 [] =
       (Inl (Errno 5), [EvWrite (File 3) [7] 1 None, EvRead (File 3) 2 [] (Some (Errno 5))])
   \<and> ReadRegS16BE os_read_fails \<lparr>rc = File 3\<rparr> 7 [] =
       (Inl (Errno 5), [EvWrite (File 3) [7] 1 None, EvRead (File 3) 2 [] (Some (Errno 5))])
   \<and> ReadRegS16LE os_read_fails \<lparr>rc = File 3\<rparr> 7 [] =
       (Inl (Errno 5), [EvWrite (File 3) [7] 1 None, EvRead (File 3) 2 [] (Some (Errno 5))])"
proof -
  have w: "File_Write os_write_fails [] (rc \<lparr>rc = File 3\<rparr>) [7] = (0, Some (Errno 5))"
    by (simp add: os_write_fails_def os_answering_def)
  have ok: "File_Write os_read_fails [] (rc \<lparr>rc = File 3\<rparr>) [7] = (1, None)"
    by (simp add: os_read_fails_def os_answering_def)
  have m: "(0 :: int) \<le> 4 \<and> 4 \<le> maxAlloc os_read_fails"
    by (simp add: os_read_fails_def os_answering_def)
  have r: "File_Read os_read_fails ([] @ [EvWrite (rc \<lparr>rc = File 3\<rparr>) [7] 1 None]) (rc \<lparr>rc = File 3\<rparr>) k =
       ([], Some (Errno 5))" for k
    by (simp add: os_read_fails_def os_answering_def)
  show ?thesis
    using
      register_reads_stop_at_first_failure
        [where sys = os_write_fails and h = "[]" and v = "\<lparr>rc = File 3\<rparr>" and reg = 7
           and c = 0 and e = "Errno 5" and n = 4 and data = "[]"]
      register_reads_stop_at_first_failure
        [where sys = os_read_fails and h = "[]" and v = "\<lparr>rc = File 3\<rparr>" and reg = 7
           and c = 1 and e = "Errno 5" and n = 4 and data = "[]"]
      w ok m r
    by simp
qed


section \<open>The transfers of \<open>ReadRegBytes\<close>\<close>

text \<open>
  C8, amended. Where the write of the register index returns no error and \<open>n\<close> is a
  length \<open>make\<close> accepts, \<open>ReadRegBytes\<close> adds to the history exactly one write of the
  single byte \<open>r\<close> and then exactly one read into a buffer of \<open>n\<close> bytes. Where the
  index write returns an error, it adds the one write and no read. Where the write
  succeeds and \<open>n\<close> is negative or beyond the allocation bound, \<open>make\<close> panics after the
  write and no read is issued.
\<close>

theorem ReadRegBytes_transfers:
  "(File_Write sys h (rc v) [r] = (c, None) \<and> 0 \<le> n \<and> n \<le> maxAlloc sys
      \<and> File_Read sys (h @ [EvWrite (rc v) [r] c None]) (rc v) (nat n) = (data, err) \<longrightarrow>
        snd (ReadRegBytes sys v r n h) =
          h @ [EvWrite (rc v) [r] c None, EvRead (rc v) (nat n) (take (nat n) data) err])
   \<and> (File_Write sys h (rc v) [r] = (c, Some e) \<longrightarrow>
        snd (ReadRegBytes sys v r n h) = h @ [EvWrite (rc v) [r] c (Some e)])
   \<and> (File_Write sys h (rc v) [r] = (c, None) \<and> (n < 0 \<or> maxAlloc sys < n) \<longrightarrow>
        ReadRegBytes sys v r n h = (Inl MakesliceLenOutOfRange, h @ [EvWrite (rc v) [r] c None]))"
proof (intro conjI impI; (elim conjE)?)
  assume w: "File_Write sys h (rc v) [r] = (c, None)" and n: "0 \<le> n" "n \<le> maxAlloc sys"
    and rd: "File_Read sys (h @ [EvWrite (rc v) [r] c None]) (rc v) (nat n) = (data, err)"
  show "snd (ReadRegBytes sys v r n h) =
      h @ [EvWrite (rc v) [r] c None, EvRead (rc v) (nat n) (take (nat n) data) err]"
    by (simp only: ReadRegBytes_run [OF w n rd] snd_conv)
next
  assume w: "File_Write sys h (rc v) [r] = (c, Some e)"
  show "snd (ReadRegBytes sys v r n h) = h @ [EvWrite (rc v) [r] c (Some e)]"
    by (simp only: ReadRegBytes_index_fails [OF w] snd_conv)
next
  assume w: "File_Write sys h (rc v) [r] = (c, None)" and n: "n < 0 \<or> maxAlloc sys < n"
  have "make_bytes sys n = Inl MakesliceLenOutOfRange"
    using n by (simp add: make_bytes_def)
  then show "ReadRegBytes sys v r n h = (Inl MakesliceLenOutOfRange, h @ [EvWrite (rc v) [r] c None])"
    by (simp add: ReadRegBytes_def WriteBytes_eq [OF w])
qed


text \<open>One run of each of the three cases.\<close>

theorem ReadRegBytes_transfers_witness:
  "File_Write (os_answering [1, 2, 3]) [] (rc \<lparr>rc = File 3\<rparr>) [7] = (1, None)
   \<and> (0 :: int) \<le> 2 \<and> 2 \<le> maxAlloc (os_answering [1, 2, 3])
   \<and> File_Read (os_answering [1, 2, 3]) ([] @ [EvWrite (rc \<lparr>rc = File 3\<rparr>) [7] 1 None])
        (rc \<lparr>rc = File 3\<rparr>) (nat 2) = ([1, 2, 3], None)
   \<and> snd (ReadRegBytes (os_answering [1, 2, 3]) \<lparr>rc = File 3\<rparr> 7 2 []) =
        [EvWrite (File 3) [7] 1 None, EvRead (File 3) 2 [1, 2] None]
   \<and> File_Write os_write_fails [] (rc \<lparr>rc = File 3\<rparr>) [7] = (0, Some (Errno 5))
   \<and> snd (ReadRegBytes os_write_fails \<lparr>rc = File 3\<rparr> 7 2 []) =
        [EvWrite (File 3) [7] 0 (Some (Errno 5))]
   \<and> ((- 1 :: int) < 0 \<or> maxAlloc (os_answering [1, 2, 3]) < - 1)
   \<and> ReadRegBytes (os_answering [1, 2, 3]) \<lparr>rc = File 3\<rparr> 7 (- 1) [] =
        (Inl MakesliceLenOutOfRange, [EvWrite (File 3) [7] 1 None])"
proof -
  have w: "File_Write (os_answering [1, 2, 3]) [] (rc \<lparr>rc = File 3\<rparr>) [7] = (1, None)"
    by (simp add: os_answering_def)
  have m: "(0 :: int) \<le> 2 \<and> 2 \<le> maxAlloc (os_answering [1, 2, 3])"
    by (simp add: os_answering_def)
  have rd: "File_Read (os_answering [1, 2, 3]) ([] @ [EvWrite (rc \<lparr>rc = File 3\<rparr>) [7] 1 None])
        (rc \<lparr>rc = File 3\<rparr>) (nat 2) = ([1, 2, 3], None)"
    by (simp add: os_answering_def)
  have f: "File_Write os_write_fails [] (rc \<lparr>rc = File 3\<rparr>) [7] = (0, Some (Errno 5))"
    by (simp add: os_write_fails_def os_answering_def)
  show ?thesis
    using
      ReadRegBytes_transfers
        [where sys = "os_answering [1, 2, 3]" and h = "[]" and v = "\<lparr>rc = File 3\<rparr>" and r = 7
           and c = 1 and n = 2 and data = "[1, 2, 3]" and err = None]
      ReadRegBytes_transfers
        [where sys = os_write_fails and h = "[]" and v = "\<lparr>rc = File 3\<rparr>" and r = 7
           and c = 0 and n = 2 and e = "Errno 5"]
      ReadRegBytes_transfers
        [where sys = "os_answering [1, 2, 3]" and h = "[]" and v = "\<lparr>rc = File 3\<rparr>" and r = 7
           and c = 1 and n = "- 1"]
      w m rd f
    by simp
qed


text \<open>
  The claim as stated, for every \<open>r\<close> and \<open>n\<close>, fails where the index write fails:
  the call returns the error after the write, and no read is issued. It fails too at a
  negative \<open>n\<close>, where the call panics after the write.
\<close>

theorem ReadRegBytes_failed_index_write_issues_no_read:
  "ReadRegBytes os_write_fails \<lparr>rc = File 3\<rparr> 0x10 4 [] =
     (Inr (Inl (Errno 5)), [EvWrite (File 3) [0x10] 0 (Some (Errno 5))])
   \<and> ReadRegBytes (os_answering []) \<lparr>rc = File 3\<rparr> 0x10 (- 1) [] =
     (Inl MakesliceLenOutOfRange, [EvWrite (File 3) [0x10] 1 None])"
  by code_simp

section \<open>Short reads\<close>

text \<open>
  C10. Where the index write succeeds and the read returns no error, whatever number of
  bytes \<open>data\<close> it stored (none, fewer than asked for, or more than fit), the typed
  reads return success: the count is not looked at, and the value is decoded from the
  buffer, which holds the bytes read followed by the zeros \<open>make\<close> put there (\<open>byte_at\<close>).
  The little-endian reads apply their exchange to the big-endian value so decoded.
\<close>

theorem typed_reads_ignore_count:
  assumes "File_Write sys h (rc v) [reg] = (c, None)"
  shows "(File_Read sys (h @ [EvWrite (rc v) [reg] c None]) (rc v) 1 = (data, None) \<longrightarrow>
            fst (ReadRegU8 sys v reg h) = Inr (byte_at data 0))
       \<and> (File_Read sys (h @ [EvWrite (rc v) [reg] c None]) (rc v) 2 = (data, None) \<longrightarrow>
            fst (ReadRegU16BE sys v reg h) =
              Inr (push_bit 8 (ucast (byte_at data 0)) + ucast (byte_at data 1))
          \<and> fst (ReadRegS16BE sys v reg h) =
              Inr (push_bit 8 (ucast (byte_at data 0)) + ucast (byte_at data 1))
          \<and> fst (ReadRegU16LE sys v reg h) =
              Inr (let w = push_bit 8 (ucast (byte_at data 0)) + ucast (byte_at data 1)
                   in push_bit 8 (w AND 0xFF) + drop_bit 8 w)
          \<and> fst (ReadRegS16LE sys v reg h) =
              Inr (let w = push_bit 8 (ucast (byte_at data 0)) + ucast (byte_at data 1)
                   in push_bit 8 (w AND 0xFF) + signed_drop_bit 8 w))"
proof (intro conjI impI)
  assume r: "File_Read sys (h @ [EvWrite (rc v) [reg] c None]) (rc v) 1 = (data, None)"
  show "fst (ReadRegU8 sys v reg h) = Inr (byte_at data 0)"
    by (simp only: ReadRegU8_ok [OF assms r] fst_conv)
next
  assume r: "File_Read sys (h @ [EvWrite (rc v) [reg] c None]) (rc v) 2 = (data, None)"
  show "fst (ReadRegU16BE sys v reg h) =
      Inr (push_bit 8 (ucast (byte_at data 0)) + ucast (byte_at data 1))"
    by (simp only: ReadRegU16BE_ok [OF assms r] fst_conv)
  show "fst (ReadRegS16BE sys v reg h) =
      Inr (push_bit 8 (ucast (byte_at data 0)) + ucast (byte_at data 1))"
    by (simp only: ReadRegS16BE_ok [OF assms r] fst_conv)
  show "fst (ReadRegU16LE sys v reg h) =
      Inr (let w = push_bit 8 (ucast (byte_at data 0)) + ucast (byte_at data 1)
           in push_bit 8 (w AND 0xFF) + drop_bit 8 w)"
    by (simp only: ReadRegU16LE_of_BE [OF ReadRegU16BE_ok [OF assms r]] fst_conv Let_def)
  show "fst (ReadRegS16LE sys v reg h) =
      Inr (let w = push_bit 8 (ucast (byte_at data 0)) + ucast (byte_at data 1)
           in push_bit 8 (w AND 0xFF) + signed_drop_bit 8 w)"
    by (simp only: ReadRegS16LE_of_BE [OF ReadRegS16BE_ok [OF assms r]] fst_conv Let_def)
qed


text \<open>A device that answers one byte, \<open>0x2B\<close>, where two are asked for.\<close>

theorem typed_reads_ignore_count_witness:
  "File_Write (os_answering [0x2B]) [] (rc \<lparr>rc = File 3\<rparr>) [7] = (1, None)
   \<and> File_Read (os_answering [0x2B]) ([] @ [EvWrite (rc \<lparr>rc = File 3\<rparr>) [7] 1 None])
        (rc \<lparr>rc = File 3\<rparr>) 1 = ([0x2B], None)
   \<and> File_Read (os_answering [0x2B]) ([] @ [EvWrite (rc \<lparr>rc = File 3\<rparr>) [7] 1 None])
        (rc \<lparr>rc = File 3\<rparr>) 2 = ([0x2B], None)
   \<and> fst (ReadRegU8 (os_answering [0x2B]) \<lparr>rc = File 3\<rparr> 7 []) = Inr 0x2B
   \<and> fst (ReadRegU16BE (os_answering [0x2B]) \<lparr>rc = File 3\<rparr> 7 []) = Inr 0x2B00
   \<and> fst (ReadRegS16BE (os_answering [0x2B]) \<lparr>rc = File 3\<rparr> 7 []) = Inr 0x2B00
   \<and> fst (ReadRegU16LE (os_answering [0x2B]) \<lparr>rc = File 3\<rparr> 7 []) = Inr 0x002B
   \<and> fst (ReadRegS16LE (os_answering [0x2B]) \<lparr>rc = File 3\<rparr> 7 []) = Inr 0x002B"
proof -
  have w: "File_Write (os_answering [0x2B]) [] (rc \<lparr>rc = File 3\<rparr>) [7] = (1, None)"
    by (simp add: os_answering_def)
  have r1: "File_Read (os_answering [0x2B]) ([] @ [EvWrite (rc \<lparr>rc = File 3\<rparr>) [7] 1 None])
        (rc \<lparr>rc = File 3\<rparr>) 1 = ([0x2B], None)"
    by (simp add: os_answering_def)
  have r2: "File_Read (os_answering [0x2B]) ([] @ [EvWrite (rc \<lparr>rc = File 3\<rparr>) [7] 1 None])
        (rc \<lparr>rc = File 3\<rparr>) 2 = ([0x2B], None)"
    by (simp add: os_answering_def)
  have b: "byte_at [0x2B] 0 = 0x2B" "byte_at [0x2B] 1 = 0"
    by (simp_all add: byte_at_def)
  show ?thesis
    using typed_reads_ignore_count [OF w, of "[0x2B]"] w r1 r2 b
    by (simp add: Let_def)
qed

section \<open>The binding of a connection\<close>

lemma WriteBytes_ctl:
  "filter is_open_or_bind (snd (WriteBytes sys v buf h)) = filter is_open_or_bind h"
  by (simp add: WriteBytes_def write_def Write_def split: prod.split)

lemma ReadBytes_ctl:
  "filter is_open_or_bind (snd (ReadBytes sys v buf h)) = filter is_open_or_bind h"
  by (simp add: ReadBytes_def read_def Read_def Let_def split: prod.split)

lemma Close_ctl:
  "filter is_open_or_bind (snd (Close sys v h)) = filter is_open_or_bind h"
  by (simp add: Close_def Close_File_def Let_def)

lemmas transfer_defs =
  WriteBytes_def write_def Write_def ReadBytes_def read_def Read_def Let_def

lemma ReadRegBytes_ctl:
  "filter is_open_or_bind (snd (ReadRegBytes sys v reg n h)) = filter is_open_or_bind h"
  by (simp add: ReadRegBytes_def transfer_defs split: prod.split option.split sum.split)

lemma ReadRegU8_ctl:
  "filter is_open_or_bind (snd (ReadRegU8 sys v reg h)) = filter is_open_or_bind h"
  by (simp add: ReadRegU8_def transfer_defs split: prod.split option.split)

lemma ReadRegU16BE_ctl:
  "filter is_open_or_bind (snd (ReadRegU16BE sys v reg h)) = filter is_open_or_bind h"
  by (simp add: ReadRegU16BE_def transfer_defs split: prod.split option.split)

lemma ReadRegS16BE_ctl:
  "filter is_open_or_bind (snd (ReadRegS16BE sys v reg h)) = filter is_open_or_bind h"
  using ReadRegU16BE_ctl [of sys v reg h] by (simp add: ReadRegS16BE_def ReadRegU16BE_def)

lemma ReadRegU16LE_ctl:
  "filter is_open_or_bind (snd (ReadRegU16LE sys v reg h)) = filter is_open_or_bind h"
  using ReadRegU16BE_ctl [of sys v reg h]
  by (cases "ReadRegU16BE sys v reg h") (auto simp: ReadRegU16LE_def split: sum.split)

lemma ReadRegS16LE_ctl:
  "filter is_open_or_bind (snd (ReadRegS16LE sys v reg h)) = filter is_open_or_bind h"
  using ReadRegS16BE_ctl [of sys v reg h]
  by (cases "ReadRegS16BE sys v reg h") (auto simp: ReadRegS16LE_def split: sum.split)

lemma WriteRegU8_ctl:
  "filter is_open_or_bind (snd (WriteRegU8 sys v reg val h)) = filter is_open_or_bind h"
  by (simp add: WriteRegU8_def transfer_defs split: prod.split option.split)

lemma WriteRegU16BE_ctl:
  "filter is_open_or_bind (snd (WriteRegU16BE sys v reg val h)) = filter is_open_or_bind h"
  by (simp add: WriteRegU16BE_def transfer_defs split: prod.split option.split)

lemma WriteRegS16BE_ctl:
  "filter is_open_or_bind (snd (WriteRegS16BE sys v reg val h)) = filter is_open_or_bind h"
  using WriteRegU16BE_ctl [of sys v reg val h] by (simp add: WriteRegS16BE_def WriteRegU16BE_def)

lemma WriteRegU16LE_ctl:
  "filter is_open_or_bind (snd (WriteRegU16LE sys v reg val h)) = filter is_open_or_bind h"
  unfolding WriteRegU16LE_def Let_def by (rule WriteRegU16BE_ctl)

lemma WriteRegS16LE_ctl:
  "filter is_open_or_bind (snd (WriteRegS16LE sys v reg val h)) = filter is_open_or_bind h"
  unfolding WriteRegS16LE_def Let_def by (rule WriteRegS16BE_ctl)

lemma perform_ctl:
  "filter is_open_or_bind (perform sys v h c) = filter is_open_or_bind h"
  by (cases c)
    (simp_all only: perform.simps WriteBytes_ctl ReadBytes_ctl Close_ctl ReadRegBytes_ctl
      ReadRegU8_ctl WriteRegU8_ctl ReadRegU16BE_ctl ReadRegU16LE_ctl ReadRegS16BE_ctl
      ReadRegS16LE_ctl WriteRegU16BE_ctl WriteRegU16LE_ctl WriteRegS16BE_ctl WriteRegS16LE_ctl)

lemma perform_all_ctl:
  "filter is_open_or_bind (perform_all sys v h calls) = filter is_open_or_bind h"
  unfolding perform_all_def
  by (induction calls arbitrary: h) (simp_all add: perform_ctl)

lemma bind_step_skip: "\<not> is_open_or_bind ev \<Longrightarrow> bind_step f b ev = b"
  by (cases ev) simp_all

lemma foldl_bind_step_filter:
  "foldl (bind_step f) b (filter is_open_or_bind h) = foldl (bind_step f) b h"
  by (induction h arbitrary: b) (simp_all add: bind_step_skip)

lemma binding_filter: "binding h f = foldl (bind_step f) (None, None) (filter is_open_or_bind h)"
  by (simp add: binding_def foldl_bind_step_filter)

lemma NewI2C_success:
  assumes "NewI2C sys addr bus h0 = (Inr v, h)"
  shows "h = h0 @ [EvOpenFile (''/dev/i2c-'' @ Sprintf_d bus) O_RDWR perm_0600 (Inr (rc v)),
                   EvIoctl (Fd (rc v)) i2cSlave (ucast addr) 0]"
  using assms
  by (auto simp: NewI2C_def OpenFile_def ioctl_def Let_def split: sum.splits if_splits)

lemma NewI2C_binding:
  assumes "NewI2C sys addr bus h0 = (Inr v, h)"
  shows "binding h (rc v) = (Some (''/dev/i2c-'' @ Sprintf_d bus), Some (ucast addr))"
  unfolding NewI2C_success [OF assms] binding_def by simp


text \<open>
  C9. After \<open>NewI2C\<close> has returned a connection, any sequence of calls of its methods
  (the two raw transfers, the eleven register operations and \<open>Close\<close>) leaves the file of
  the connection opened on the device node of the bus and bound to the address given at
  construction, and adds no \<open>os.OpenFile\<close> and no ioctl to the history: the methods
  only read \<open>rc\<close>, and only write, read and close it.
\<close>

theorem connection_stays_bound:
  assumes "NewI2C sys addr bus h0 = (Inr v, h)"
  shows "binding (perform_all sys v h calls) (rc v) =
           (Some (''/dev/i2c-'' @ Sprintf_d bus), Some (ucast addr))
       \<and> filter is_open_or_bind (perform_all sys v h calls) = filter is_open_or_bind h"
  using NewI2C_binding [OF assms] perform_all_ctl [of sys v h calls]
  by (simp add: binding_filter)


text \<open>A connection on bus 1, address \<open>0x48\<close>, used and then closed.\<close>

theorem connection_stays_bound_witness:
  "NewI2C (os_answering [0x12, 0x34]) 0x48 1 [] =
     (Inr \<lparr>rc = File 3\<rparr>,
      [EvOpenFile ''/dev/i2c-1'' 2 384 (Inr (File 3)), EvIoctl 3 0x0703 0x48 0])
   \<and> binding
       (perform_all (os_answering [0x12, 0x34]) \<lparr>rc = File 3\<rparr>
          [EvOpenFile ''/dev/i2c-1'' 2 384 (Inr (File 3)), EvIoctl 3 0x0703 0x48 0]
          [Call_WriteRegU8 0x01 0x60, Call_ReadRegU16BE 0x00, Call_ReadRegBytes 0x00 (- 1),
           Call_WriteRegS16LE 0x10 (- 1), Call_Close])
       (File 3) = (Some ''/dev/i2c-1'', Some 0x48)"
proof -
  have n: "NewI2C (os_answering [0x12, 0x34]) 0x48 1 [] =
     (Inr \<lparr>rc = File 3\<rparr>,
      [EvOpenFile ''/dev/i2c-1'' 2 384 (Inr (File 3)), EvIoctl 3 0x0703 0x48 0])"
    by code_simp
  have p: "''/dev/i2c-'' @ Sprintf_d 1 = ''/dev/i2c-1''"
    by code_simp
  from connection_stays_bound [OF n] n p show ?thesis
    by simp
qed

end
